theory Spec2Isabelle
  imports Main
begin

chapter \<open>The model\<close>

section \<open>Texts, character classes and numbers\<close>

text \<open>
  A JavaScript string is modelled as a \<^typ>\<open>string\<close>: the list of its code units, each
  below 256. The character classes are those used by the regular expressions of the
  sources: \<open>[A-Z]\<close>, \<open>[a-z]\<close>, \<open>\d\<close>, \<open>\w\<close>, \<open>\s\<close> and the line terminators that
  \<open>.\<close>, \<open>^\<close> and \<open>$\<close> look at.
\<close>

abbreviation LF :: char where
  "LF \<equiv> CHR 0x0A"

definition is_upper :: "char \<Rightarrow> bool" where
  "is_upper c = (c \<in> set ''ABCDEFGHIJKLMNOPQRSTUVWXYZ'')"

definition is_lower :: "char \<Rightarrow> bool" where
  "is_lower c = (c \<in> set ''abcdefghijklmnopqrstuvwxyz'')"

definition is_digit :: "char \<Rightarrow> bool" where
  "is_digit c = (c \<in> set ''0123456789'')"

definition is_word :: "char \<Rightarrow> bool" where
  \<comment> \<open>\<open>\w\<close>\<close>
  "is_word c = (is_upper c \<or> is_lower c \<or> is_digit c \<or> c = CHR ''_'')"

definition is_space :: "char \<Rightarrow> bool" where
  \<comment> \<open>\<open>\s\<close>, also what \<open>trim\<close> strips: tab, line feed, vertical tab, form feed,
      carriage return, space and the no-break space\<close>
  "is_space c = (c \<in> set [CHR 0x09, CHR 0x0A, CHR 0x0B, CHR 0x0C, CHR 0x0D, CHR 0x20, CHR 0xA0])"

definition is_line_terminator :: "char \<Rightarrow> bool" where
  "is_line_terminator c = (c = CHR 0x0A \<or> c = CHR 0x0D)"

definition to_upper :: "char \<Rightarrow> char" where
  \<comment> \<open>\<open>toUpperCase\<close> on one code unit, for the ASCII letters\<close>
  "to_upper c =
     (case map_of (zip ''abcdefghijklmnopqrstuvwxyz'' ''ABCDEFGHIJKLMNOPQRSTUVWXYZ'') c of
        Some u \<Rightarrow> u | None \<Rightarrow> c)"


definition trim :: "string \<Rightarrow> string" where
  \<comment> \<open>\<open>String.prototype.trim\<close>\<close>
  "trim s = rev (dropWhile is_space (rev (dropWhile is_space s)))"

definition starts_with :: "string \<Rightarrow> string \<Rightarrow> bool" where
  "starts_with p s = (take (length p) s = p)"

definition ends_with :: "string \<Rightarrow> string \<Rightarrow> bool" where
  "ends_with p s = starts_with (rev p) (rev s)"

definition digit_char :: "nat \<Rightarrow> char" where
  "digit_char d = ''0123456789'' ! (d mod 10)"

function show_nat :: "nat \<Rightarrow> string" where
  \<comment> \<open>the decimal text of a counter, as a template literal prints it\<close>
  "show_nat n = (if n < 10 then [digit_char n] else show_nat (n div 10) @ [digit_char n])"
  by pat_completeness auto
termination
  by (relation "measure (\<lambda>n. n)") auto

declare show_nat.simps [simp del]

section \<open>The image handler\<close>

text \<open>
  \<open>createImageHandler(outputDir, documentName)\<close> returns a handler closed over a counter
  and a list. The closure's variables are the record \<open>handler_state\<close>; the handler takes
  the state and returns the new one beside its result. \<open>path.join\<close> belongs to the
  platform and is a parameter.
\<close>

record element =
  contentType :: string
  base64 :: string  \<comment> \<open>what \<open>element.read('base64')\<close> gives\<close>

record image =
  buffer :: string
  path :: string
  name :: string
  placeholder :: string

record handler_state =
  imageCounter :: nat
  images :: "image list"

fun split_at :: "char \<Rightarrow> string \<Rightarrow> string \<Rightarrow> string list" where
  \<comment> \<open>\<open>s.split(sep)\<close> for a one-character separator; the second argument is the piece
      being collected\<close>
  "split_at sep acc [] = [rev acc]"
| "split_at sep acc (c # cs) =
     (if c = sep then rev acc # split_at sep [] cs else split_at sep (c # acc) cs)"

definition split :: "string \<Rightarrow> char \<Rightarrow> string list" where
  "split s sep = split_at sep [] s"

definition extension_of :: "string \<Rightarrow> string" where
  \<comment> \<open>\<open>contentType.split('/')[1] || 'png'\<close>: a missing or empty second piece is falsy\<close>
  "extension_of ct =
     (case split ct (CHR ''/'') of
        _ # e # _ \<Rightarrow> (if e = [] then ''png'' else e)
      | _ \<Rightarrow> ''png'')"

definition imageName_of :: "string \<Rightarrow> nat \<Rightarrow> string \<Rightarrow> string" where
  "imageName_of documentName n extension =
     documentName @ ''-image-'' @ show_nat n @ ''.'' @ extension"

definition placeholder_of :: "nat \<Rightarrow> string \<Rightarrow> string" where
  "placeholder_of n imageName = ''![Image '' @ show_nat n @ ''](./images/'' @ imageName @ '')''"

definition createImageHandler :: handler_state where
  "createImageHandler = \<lparr>imageCounter = 1, images = []\<rparr>"

definition handler ::
  "(string list \<Rightarrow> string) \<Rightarrow> string \<Rightarrow> string \<Rightarrow> element \<Rightarrow> handler_state
     \<Rightarrow> string \<times> handler_state" where
  "handler join outputDir documentName el st =
     (let imageBuffer = base64 el;
          extension = extension_of (contentType el);
          imageName = imageName_of documentName (imageCounter st) extension;
          imagePath = join [outputDir, ''images'', imageName];
          img = \<lparr>buffer = imageBuffer, path = imagePath, name = imageName,
                 placeholder = placeholder_of (imageCounter st) imageName\<rparr>;
          imgs = images st @ [img]
      in (placeholder (last imgs), \<lparr>imageCounter = imageCounter st + 1, images = imgs\<rparr>))"

fun capture_all ::
  "(string list \<Rightarrow> string) \<Rightarrow> string \<Rightarrow> string \<Rightarrow> element list \<Rightarrow> handler_state
     \<Rightarrow> string list \<times> handler_state" where
  \<comment> \<open>the structural converter calls the handler once per image, in document order;
      the results are the \<open>src\<close> values it splices into the markup\<close>
  "capture_all join outputDir documentName [] st = ([], st)"
| "capture_all join outputDir documentName (el # els) st =
     (let (src, st') = handler join outputDir documentName el st;
          (srcs, st'') = capture_all join outputDir documentName els st'
      in (src # srcs, st''))"

section \<open>Regular-expression replacement\<close>

text \<open>
  \<open>text.replace(/re/g, replacement)\<close> walks the text from the left. At each position the
  expression is tried; where it matches, the replacement is emitted and the walk resumes
  after the match; where it does not, the character is copied. A matcher is given the
  character before the position (for \<open>\b\<close> and \<open>^\<close>) and the rest of the text, and returns
  the replacement text with the length of the match. Every expression below consumes at
  least one character.
\<close>

type_synonym matcher = "char option \<Rightarrow> string \<Rightarrow> (string \<times> nat) option"

fun replace_scan :: "matcher \<Rightarrow> char option \<Rightarrow> nat \<Rightarrow> string \<Rightarrow> string" where
  "replace_scan m prev k [] = []"
| "replace_scan m prev (Suc k) (c # cs) = replace_scan m (Some c) k cs"
| "replace_scan m prev 0 (c # cs) =
     (case m prev (c # cs) of
        None \<Rightarrow> c # replace_scan m (Some c) 0 cs
      | Some (rep, n) \<Rightarrow> rep @ replace_scan m (Some c) (n - 1) cs)"

definition replace_all :: "matcher \<Rightarrow> string \<Rightarrow> string" where
  "replace_all m s = replace_scan m None 0 s"

definition heading_hashes :: "string \<Rightarrow> (string \<times> string) option" where
  \<comment> \<open>\<open>#{1,6}\<close> before something that is not \<open>#\<close>: the run of \<open>#\<close> at the head, when it has
      one to six characters. A longer run leaves a \<open>#\<close> where every use below wants a blank.\<close>
  "heading_hashes s =
     (let h = takeWhile (\<lambda>c. c = CHR ''#'') s
      in if 1 \<le> length h \<and> length h \<le> 6 then Some (h, drop (length h) s) else None)"

subsection \<open>The rules of postprocessMarkdown\<close>

definition match_blank_lines :: matcher where
  \<comment> \<open>\<open>/\n{3,}/g\<close>, replaced by \<open>'\n\n'\<close>\<close>
  "match_blank_lines prev s =
     (let n = length (takeWhile (\<lambda>c. c = LF) s)
      in if 3 \<le> n then Some ([LF, LF], n) else None)"

definition match_before_header :: matcher where
  \<comment> \<open>\<open>/\n(#{1,6}\s)/g\<close>, replaced by \<open>'\n\n$1'\<close>\<close>
  "match_before_header prev s =
     (case s of
        [] \<Rightarrow> None
      | c # r \<Rightarrow>
          if c \<noteq> LF then None
          else (case heading_hashes r of
                  Some (h, w # _) \<Rightarrow>
                    if is_space w then Some ([LF, LF] @ h @ [w], length h + 2) else None
                | _ \<Rightarrow> None))"

definition match_after_header :: matcher where
  \<comment> \<open>\<open>/(#{1,6}\s.+)\n([^\n])/g\<close>, replaced by \<open>'$1\n\n$2'\<close>. The greedy \<open>.+\<close> stops at the
      first line terminator or at the end; a shorter run is followed by a character that
      is not a line feed, so only the longest run can be followed by \<open>\n\<close>.\<close>
  "match_after_header prev s =
     (case heading_hashes s of
        Some (h, w # r) \<Rightarrow>
          if \<not> is_space w then None
          else (let body = takeWhile (\<lambda>c. \<not> is_line_terminator c) r
                in if body = [] then None
                   else (case drop (length body) r of
                           n # x # _ \<Rightarrow>
                             if n = LF \<and> x \<noteq> LF
                             then Some (h @ [w] @ body @ [LF, LF, x], length h + length body + 3)
                             else None
                         | _ \<Rightarrow> None))
      | _ \<Rightarrow> None)"

definition match_table_row :: matcher where
  \<comment> \<open>\<open>/\n(\|[^\n]+\|)\n([^\|])/g\<close>, replaced by \<open>'\n$1\n\n$2'\<close>. The row is the rest of
      the line; it must end in \<open>|\<close> with at least one character between the two bars.\<close>
  "match_table_row prev s =
     (case s of
        c # b # r \<Rightarrow>
          if c \<noteq> LF \<or> b \<noteq> CHR ''|'' then None
          else (let row = takeWhile (\<lambda>c. c \<noteq> LF) r
                in if length row < 2 \<or> last row \<noteq> CHR ''|'' then None
                   else (case drop (length row) r of
                           n # x # _ \<Rightarrow>
                             if x \<noteq> CHR ''|''
                             then Some ([LF, CHR ''|''] @ row @ [LF, LF, x], length row + 4)
                             else None
                         | _ \<Rightarrow> None))
      | _ \<Rightarrow> None)"

definition element_symbol :: "string \<Rightarrow> (string \<times> string) option" where
  \<comment> \<open>\<open>[A-Z][a-z]?\<close>: a lower-case letter after the capital is always taken, since what
      follows in each expression cannot start with one\<close>
  "element_symbol s =
     (case s of
        [] \<Rightarrow> None
      | c # r \<Rightarrow>
          if \<not> is_upper c then None
          else (case r of
                  l # r' \<Rightarrow> if is_lower l then Some ([c, l], r') else Some ([c], r)
                | [] \<Rightarrow> Some ([c], r)))"

definition match_subscript :: matcher where
  \<comment> \<open>\<open>/([A-Z][a-z]?)_(\d+)_/g\<close>, replaced by \<open>'$1_$2'\<close>\<close>
  "match_subscript prev s =
     (case element_symbol s of
        Some (symb, u # r) \<Rightarrow>
          if u \<noteq> CHR ''_'' then None
          else (let ds = takeWhile is_digit r
                in if ds = [] then None
                   else (case drop (length ds) r of
                           u' # _ \<Rightarrow>
                             if u' = CHR ''_''
                             then Some (symb @ ''_'' @ ds, length symb + length ds + 2)
                             else None
                         | [] \<Rightarrow> None))
      | _ \<Rightarrow> None)"

datatype group_pos = AfterDigits | AfterUpper | AfterLower

fun groups_len :: "group_pos \<Rightarrow> string \<Rightarrow> nat" where
  \<comment> \<open>the length of the longest run of groups \<open>[A-Z][a-z]?\d*\<close> at the head, read after
      the digits of the first group. Each group takes all it can: a character left behind
      would be a word character, where neither a new group nor the final \<open>\b\<close> can follow.\<close>
  "groups_len p [] = 0"
| "groups_len p (c # cs) =
     (if is_upper c then Suc (groups_len AfterUpper cs)
      else if is_lower c \<and> p = AfterUpper then Suc (groups_len AfterLower cs)
      else if is_digit c then Suc (groups_len AfterDigits cs)
      else 0)"

definition match_formula :: matcher where
  \<comment> \<open>\<open>/\b([A-Z][a-z]?)(\d+)([A-Z][a-z]?\d*)+\b/g\<close>, replaced by \<open>'$$$&$$'\<close>: a dollar
      sign, the match, a dollar sign\<close>
  "match_formula prev s =
     (if (case prev of Some p \<Rightarrow> is_word p | None \<Rightarrow> False) then None
      else (case element_symbol s of
              None \<Rightarrow> None
            | Some (symb, r) \<Rightarrow>
                (let ds = takeWhile is_digit r; r' = drop (length ds) r; n = groups_len AfterDigits r'
                 in if ds = [] \<or> n = 0 then None
                    else if (case drop n r' of w # _ \<Rightarrow> is_word w | [] \<Rightarrow> False) then None
                    else Some (''$'' @ take (length symb + length ds + n) s @ ''$'',
                               length symb + length ds + n))))"

definition postprocessMarkdown :: "string \<Rightarrow> string" where
  "postprocessMarkdown markdown =
     (let markdown = replace_all match_blank_lines markdown;
          markdown = replace_all match_before_header markdown;
          markdown = replace_all match_after_header markdown;
          markdown = replace_all match_table_row markdown;
          markdown = replace_all match_subscript markdown;
          markdown = replace_all match_formula markdown
      in trim markdown)"

subsection \<open>The rules of preprocessHtml\<close>





section \<open>Titles\<close>

fun title_text :: "nat \<Rightarrow> string \<Rightarrow> string option" where
  \<comment> \<open>\<open>\s+(.+)$\<close> at the head of \<open>r\<close>, where \<open>\s+\<close> may take at most \<open>t\<close> characters, all
      blanks: the greedy \<open>\s+\<close> gives characters back until \<open>.\<close> finds one that is not a
      line terminator; \<open>.+\<close> then runs to the end of that line, where \<open>$\<close> holds.\<close>
  "title_text 0 r = None"
| "title_text (Suc t) r =
     (case drop (Suc t) r of
        c # _ \<Rightarrow>
          if is_line_terminator c then title_text t r
          else Some (takeWhile (\<lambda>c. \<not> is_line_terminator c) (drop (Suc t) r))
      | [] \<Rightarrow> title_text t r)"

definition match_h1 :: "string \<Rightarrow> string option" where
  \<comment> \<open>\<open>#\s+(.+)$\<close> at the head of the text; the result is group 1\<close>
  "match_h1 s =
     (case s of
        c # r \<Rightarrow> if c = CHR ''#'' then title_text (length (takeWhile is_space r)) r else None
      | [] \<Rightarrow> None)"

definition match_heading :: "string \<Rightarrow> string option" where
  \<comment> \<open>\<open>#{1,6}\s+(.+)$\<close> at the head of the text\<close>
  "match_heading s =
     (case heading_hashes s of
        Some (h, r) \<Rightarrow> title_text (length (takeWhile is_space r)) r
      | None \<Rightarrow> None)"

fun first_line_match :: "(string \<Rightarrow> string option) \<Rightarrow> char option \<Rightarrow> string \<Rightarrow> string option" where
  \<comment> \<open>\<open>text.match(/^.../m)\<close>: the leftmost position at the start of the text or after a
      line terminator where the rest of the expression matches\<close>
  "first_line_match m prev [] = None"
| "first_line_match m prev (c # cs) =
     (if (case prev of None \<Rightarrow> True | Some p \<Rightarrow> is_line_terminator p)
      then (case m (c # cs) of
              Some g \<Rightarrow> Some g
            | None \<Rightarrow> first_line_match m (Some c) cs)
      else first_line_match m (Some c) cs)"

definition extractTitle :: "string \<Rightarrow> string" where
  "extractTitle markdown =
     (case first_line_match match_h1 None markdown of
        Some g \<Rightarrow> trim g
      | None \<Rightarrow>
          (case first_line_match match_heading None markdown of
             Some g \<Rightarrow> trim g
           | None \<Rightarrow> ''Untitled Document''))"

text \<open>The functions of Node's \<open>path\<close> module are parameters of the model.\<close>

record path_module =
  path_dirname :: "string \<Rightarrow> string"
  path_basename :: "string \<Rightarrow> string \<Rightarrow> string"
    \<comment> \<open>\<open>path.basename(p, suffix)\<close>; the empty suffix stands for \<open>path.basename(p)\<close>\<close>
  path_extname :: "string \<Rightarrow> string"
  path_join :: "string list \<Rightarrow> string"

definition match_word_start :: matcher where
  \<comment> \<open>\<open>/\b\w/g\<close>, replaced by the character in upper case\<close>
  "match_word_start prev s =
     (case s of
        [] \<Rightarrow> None
      | c # _ \<Rightarrow>
          if is_word c \<and> \<not> (case prev of Some p \<Rightarrow> is_word p | None \<Rightarrow> False)
          then Some ([to_upper c], 1) else None)"

definition extractTitleFromFilename :: "path_module \<Rightarrow> string \<Rightarrow> string" where
  "extractTitleFromFilename P filename =
     (let basename = path_basename P filename (path_extname P filename);
          spaced = map (\<lambda>c. if c = CHR ''-'' \<or> c = CHR ''_'' then CHR '' '' else c) basename
      in replace_all match_word_start spaced)"

section \<open>Frontmatter\<close>

text \<open>
  An options object is read by destructuring with defaults, which tells a key that is
  absent or holds \<open>undefined\<close> from one that holds \<open>null\<close>; spreading an object copies a key
  that holds \<open>undefined\<close> but not an absent one. \<open>property\<close> keeps the four cases apart.
  The values are typed as the configuration validates them: texts, whole numbers and lists
  of texts. A frontmatter object is an ordered list of keys and values; keys that look
  like array indices, which JavaScript would order first, are not considered.
\<close>

datatype 'a property = Absent | Undefined | Null | Value 'a

datatype yval = YNull | YStr string | YNum int | YSeq "string list"

type_synonym object = "(string \<times> yval) list"

datatype error = Error string | TypeError string


record frontmatter_options =
  opt_title :: "string property"
  opt_section :: "string property"
  opt_chapter :: "int property"
  opt_objectives :: "string list property"
  opt_customFields :: "object property"

definition no_options :: frontmatter_options where
  \<comment> \<open>the empty object \<open>{}\<close>\<close>
  "no_options = \<lparr>opt_title = Absent, opt_section = Absent, opt_chapter = Absent,
                  opt_objectives = Absent, opt_customFields = Absent\<rparr>"

fun put :: "string \<Rightarrow> yval \<Rightarrow> object \<Rightarrow> object" where
  \<comment> \<open>defining a key in an object literal: a key already there keeps its place and takes
      the new value, a new key goes last\<close>
  "put k v [] = [(k, v)]"
| "put k v ((k', v') # kvs) = (if k = k' then (k, v) # kvs else (k', v') # put k v kvs)"

definition spread :: "object \<Rightarrow> object \<Rightarrow> object" where
  \<comment> \<open>\<open>{...obj, ...src}\<close>\<close>
  "spread src obj = foldl (\<lambda>acc (k, v). put k v acc) obj src"

definition generateFrontmatter :: "frontmatter_options \<Rightarrow> error + object" where
  "generateFrontmatter options =
     (let title_v = (case opt_title options of
                       Absent \<Rightarrow> YStr ''Untitled'' | Undefined \<Rightarrow> YStr ''Untitled''
                     | Null \<Rightarrow> YNull | Value t \<Rightarrow> YStr t);
          section_v = (case opt_section options of Value x \<Rightarrow> Some x | _ \<Rightarrow> None);
          chapter_v = (case opt_chapter options of Value n \<Rightarrow> Some n | _ \<Rightarrow> None);
          customFields_v = (case opt_customFields options of Value obj \<Rightarrow> obj | _ \<Rightarrow> [])
      in case opt_objectives options of
           Null \<Rightarrow> Inl (TypeError ''Cannot read properties of null (reading 'length')'')
         | objectives_p \<Rightarrow>
             (let objectives_v = (case objectives_p of Value l \<Rightarrow> l | _ \<Rightarrow> []);
                  frontmatter = [(''title'', title_v)];
                  frontmatter = (case section_v of
                                   Some x \<Rightarrow> spread [(''section'', YStr x)] frontmatter
                                 | None \<Rightarrow> frontmatter);
                  frontmatter = (case chapter_v of
                                   Some n \<Rightarrow> spread [(''chapter'', YNum n)] frontmatter
                                 | None \<Rightarrow> frontmatter);
                  frontmatter = (if length objectives_v > 0
                                 then spread [(''objectives'', YSeq objectives_v)] frontmatter
                                 else frontmatter)
              in Inr (spread customFields_v frontmatter)))"

text \<open>\<open>yaml.dump\<close> and \<open>yaml.load\<close> belong to the js-yaml library and are parameters.\<close>

definition frontmatterToYaml :: "(object \<Rightarrow> string) \<Rightarrow> object \<Rightarrow> string" where
  "frontmatterToYaml dump frontmatter =
     (let yamlString = dump frontmatter
      in ''---'' @ [LF] @ yamlString @ ''---'' @ [LF, LF])"

definition addFrontmatterToMarkdown ::
  "(object \<Rightarrow> string) \<Rightarrow> string \<Rightarrow> frontmatter_options \<Rightarrow> error + string" where
  "addFrontmatterToMarkdown dump markdown frontmatterOptions =
     (case generateFrontmatter frontmatterOptions of
        Inl e \<Rightarrow> Inl e
      | Inr frontmatter \<Rightarrow> Inr (frontmatterToYaml dump frontmatter @ markdown))"

definition frontmatter_close :: string where
  "frontmatter_close = [LF] @ ''---'' @ [LF, LF]"

fun lazy_until_close :: "string \<Rightarrow> string \<Rightarrow> (string \<times> string) option" where
  \<comment> \<open>\<open>([\s\S]*?)\n---\n\n\<close>: the lazy group grows one character at a time until the
      closing marker follows; the result is the group and the text after the marker\<close>
  "lazy_until_close acc [] = None"
| "lazy_until_close acc (c # cs) =
     (if starts_with frontmatter_close (c # cs)
      then Some (rev acc, drop (length frontmatter_close) (c # cs))
      else lazy_until_close (c # acc) cs)"

definition frontmatterRegex :: "string \<Rightarrow> (string \<times> string) option" where
  \<comment> \<open>\<open>/^---\n([\s\S]*?)\n---\n\n/\<close> on a text: group 1 and the text after the match\<close>
  "frontmatterRegex s =
     (if starts_with (''---'' @ [LF]) s then lazy_until_close [] (drop 4 s) else None)"

definition parseFrontmatter :: "(string \<Rightarrow> 'a option) \<Rightarrow> string \<Rightarrow> 'a option \<times> string" where
  \<comment> \<open>\<open>load\<close> returns \<open>None\<close> where \<open>yaml.load\<close> throws; the first component \<open>None\<close> is the
      \<open>null\<close> frontmatter. The expression is anchored, so removing its match leaves the
      text after it.\<close>
  "parseFrontmatter load markdown =
     (case frontmatterRegex markdown of
        Some (g, content) \<Rightarrow>
          (case load g of
             Some frontmatter \<Rightarrow> (Some frontmatter, content)
           | None \<Rightarrow> (None, markdown))
      | None \<Rightarrow> (None, markdown))"

section \<open>Converting one document\<close>

text \<open>
  The platform and the libraries are a record of parameters: what each file-system call
  answers (\<open>None\<close> where it succeeds, an error where it throws), what the structural
  converter finds in a buffer, the flattening of markup, the serialiser and the clock. The structural
  converter calls the image handler once per embedded image, in document order, and
  splices the returned references into the markup it produces. The files written so far
  are the state, passed through every function that writes.
\<close>

record mammoth_document =
  embedded :: "element list"            \<comment> \<open>the images, in document order\<close>
  html_with :: "string list \<Rightarrow> string"    \<comment> \<open>the markup, given the handler's references\<close>
  html_inline :: string                 \<comment> \<open>the markup when no handler is installed\<close>
  messages :: "string list"

record world =
  path_of :: path_module
  fs_mkdir :: "string \<Rightarrow> error option"
  fs_readFile :: "string \<Rightarrow> error + string"
  fs_writeFile :: "string \<Rightarrow> string \<Rightarrow> error option"
  fs_access :: "string \<Rightarrow> bool"           \<comment> \<open>\<open>fs.access(p)\<close> succeeds\<close>
  fs_access_R_OK :: "string \<Rightarrow> bool"      \<comment> \<open>\<open>fs.access(p, R_OK)\<close> succeeds\<close>
  mammoth_convertToHtml :: "string \<Rightarrow> error + mammoth_document"
  turndown :: "string \<Rightarrow> string"
  buffer_from_base64 :: "string \<Rightarrow> string"
  yaml_dump :: "object \<Rightarrow> string"
  now :: string


record metadata =
  originalFile :: string
  convertedAt :: string

record conversion =
  markdown :: string
  extracted :: "image list"   \<comment> \<open>the field \<open>images\<close> of the result\<close>
  warnings :: "string list"
  metadata_of :: metadata




section \<open>The orchestrator\<close>

record convert_options =
  outputDir_opt :: "string option"
  outputFile_opt :: "string option"
  extractImages_opt :: "bool option"
  frontmatter_opt :: frontmatter_options




definition resolve_title :: "path_module \<Rightarrow> string property \<Rightarrow> string \<Rightarrow> string \<Rightarrow> string" where
  \<comment> \<open>\<open>frontmatter.title || extractTitle(result.markdown) || extractTitleFromFilename(inputPath)\<close>:
      a text is truthy when it is not empty\<close>
  "resolve_title P title_p md inputPath =
     (case title_p of
        Value t \<Rightarrow>
          if t \<noteq> [] then t
          else if extractTitle md \<noteq> [] then extractTitle md
          else extractTitleFromFilename P inputPath
      | _ \<Rightarrow>
          if extractTitle md \<noteq> [] then extractTitle md
          else extractTitleFromFilename P inputPath)"

definition with_title :: "string \<Rightarrow> frontmatter_options \<Rightarrow> frontmatter_options" where
  \<comment> \<open>\<open>{ title, ...frontmatter }\<close>: a \<open>title\<close> key of \<open>frontmatter\<close>, whatever it holds,
      replaces the resolved title\<close>
  "with_title t fm = (case opt_title fm of Absent \<Rightarrow> fm\<lparr>opt_title := Value t\<rparr> | _ \<Rightarrow> fm)"


section \<open>Batch conversion\<close>










section \<open>Auxiliary notions for the properties\<close>

text \<open>The records a fresh handler is expected to hold after a run of calls.\<close>

definition image_at :: "(string list \<Rightarrow> string) \<Rightarrow> string \<Rightarrow> string \<Rightarrow> nat \<Rightarrow> element \<Rightarrow> image" where
  \<comment> \<open>the record for the image with ordinal \<open>n\<close>\<close>
  "image_at join outputDir documentName n el =
     (let nm = imageName_of documentName n (extension_of (contentType el))
      in \<lparr>buffer = base64 el, path = join [outputDir, ''images'', nm], name = nm,
          placeholder = placeholder_of n nm\<rparr>)"

fun expected_images ::
  "(string list \<Rightarrow> string) \<Rightarrow> string \<Rightarrow> string \<Rightarrow> nat \<Rightarrow> element list \<Rightarrow> image list" where
  "expected_images join od dn n [] = []"
| "expected_images join od dn n (el # els) =
     image_at join od dn n el # expected_images join od dn (Suc n) els"


text \<open>
  The fields of the round-trip scenario, the object they compose to, and the text js-yaml
  prints for that object in block style (without the final line feed).
\<close>

definition round_trip_options :: frontmatter_options where
  "round_trip_options = no_options\<lparr>opt_title := Value ''T'', opt_chapter := Value 1,
     opt_section := Value ''1.1'', opt_objectives := Value [''a'', ''b'']\<rparr>"

definition round_trip_fields :: object where
  "round_trip_fields = [(''title'', YStr ''T''), (''section'', YStr ''1.1''), (''chapter'', YNum 1),
                        (''objectives'', YSeq [''a'', ''b''])]"

definition round_trip_yaml :: string where
  \<open>round_trip_yaml = ''title: T'' @ [LF] @ ''section: "1.1"'' @ [LF] @ ''chapter: 1'' @ [LF]
     @ ''objectives:'' @ [LF] @ ''  - a'' @ [LF] @ ''  - b''\<close>



text \<open>
  A world for the scenarios below. Its \<open>path\<close> functions cover relative paths made of
  plain segments; its converter reports the document \<open>docs/b.docx\<close> as malformed and finds
  in every other one a paragraph and two images; markup without tags is flattened to
  itself; the serialiser prints the one-key object of a document without a title. \<open>failing_disk\<close> is the same world with a disk that refuses the first image of
  \<open>docs/a.docx\<close>.
\<close>

definition after_last_slash :: "string \<Rightarrow> string" where
  "after_last_slash s = rev (takeWhile (\<lambda>c. c \<noteq> CHR ''/'') (rev s))"

definition sample_path :: path_module where
  "sample_path =
     \<lparr>path_dirname = (\<lambda>s. let d = rev (drop 1 (dropWhile (\<lambda>c. c \<noteq> CHR ''/'') (rev s)))
                          in if d = [] then ''.'' else d),
      path_basename = (\<lambda>s suffix. let b = after_last_slash s
                          in if suffix \<noteq> [] \<and> length suffix < length b \<and> ends_with suffix b
                             then take (length b - length suffix) b else b),
      path_extname = (\<lambda>s. let b = after_last_slash s;
                               e = rev (takeWhile (\<lambda>c. c \<noteq> CHR ''.'') (rev b))
                           in if CHR ''.'' \<in> set b \<and> length e + 1 < length b then ''.'' @ e else []),
      path_join = (\<lambda>parts. foldr (\<lambda>a b. if b = [] then a else a @ ''/'' @ b) parts [])\<rparr>"

definition sample_document :: mammoth_document where
  "sample_document =
     \<lparr>embedded = [\<lparr>contentType = ''image/png'', base64 = ''iVBORw0K''\<rparr>,
                  \<lparr>contentType = ''image/jpeg'', base64 = ''/9j/4AAQ''\<rparr>],
      html_with = (\<lambda>srcs. ''Hello H2O world'' @ concat (map (\<lambda>s. [LF, LF] @ s) srcs)),
      html_inline = ''Hello H2O world'',
      messages = [''Unrecognised paragraph style: Body'']\<rparr>"

definition sample_world :: world where
  "sample_world =
     \<lparr>path_of = sample_path,
      fs_mkdir = (\<lambda>p. None),
      fs_readFile = (\<lambda>p. Inr (''bytes of '' @ p)),
      fs_writeFile = (\<lambda>p d. None),
      fs_access = (\<lambda>p. True),
      fs_access_R_OK = (\<lambda>p. True),
      mammoth_convertToHtml = (\<lambda>buf. if buf = ''bytes of docs/b.docx''
                                      then Inl (Error ''Could not find the body element: are you sure this is a docx file?'')
                                      else Inr sample_document),
      turndown = (\<lambda>html. html),
      buffer_from_base64 = (\<lambda>b. b),
      yaml_dump = (\<lambda>fm. ''title: Untitled Document'' @ [LF]),
      now = ''2024-01-01T00:00:00.000Z''\<rparr>"

definition failing_disk :: world where
  "failing_disk = sample_world\<lparr>fs_writeFile :=
     (\<lambda>p d. if p = ''docs/images/a-image-1.png'' then Some (Error ''ENOSPC: no space left on device'')
            else None)\<rparr>"

definition sample_options :: convert_options where
  "sample_options = \<lparr>outputDir_opt = None, outputFile_opt = None, extractImages_opt = None,
     frontmatter_opt = no_options\<rparr>"



text \<open>
  The number of line feeds at the head of a text, and the texts in which no three line
  feeds follow one another.
\<close>

definition lf_run :: "string \<Rightarrow> nat" where
  "lf_run s = length (takeWhile (\<lambda>c. c = LF) s)"

fun no_triple :: "string \<Rightarrow> bool" where
  "no_triple [] = True"
| "no_triple (c # cs) = (lf_run (c # cs) < 3 \<and> no_triple cs)"

chapter \<open>Properties\<close>

section \<open>The image handler\<close>

lemma handler_step:
  "handler join od dn el st =
     (placeholder (image_at join od dn (imageCounter st) el),
      \<lparr>imageCounter = Suc (imageCounter st),
       images = images st @ [image_at join od dn (imageCounter st) el]\<rparr>)"
  by (simp add: handler_def image_at_def Let_def)

lemma capture_all_state:
  "snd (capture_all join od dn els st) =
     \<lparr>imageCounter = imageCounter st + length els,
      images = images st @ expected_images join od dn (imageCounter st) els\<rparr>"
proof (induction els arbitrary: st)
  case Nil
  then show ?case by simp
next
  case (Cons el els)
  then show ?case
    by (simp add: handler_step split_beta)
qed

lemma length_expected_images: "length (expected_images join od dn n els) = length els"
  by (induction els arbitrary: n) simp_all

lemma nth_expected_images:
  "i < length els \<Longrightarrow> expected_images join od dn n els ! i = image_at join od dn (n + i) (els ! i)"
proof (induction els arbitrary: n i)
  case Nil
  then show ?case by simp
next
  case (Cons el els)
  then show ?case by (cases i) simp_all
qed

lemma capture_all_srcs:
  "fst (capture_all join od dn els st) =
     map placeholder (expected_images join od dn (imageCounter st) els)"
proof (induction els arbitrary: st)
  case Nil
  then show ?case by simp
next
  case (Cons el els)
  then show ?case
    by (simp add: handler_step split_beta)
qed

text \<open>
  Claim C6. A conversion starts from a fresh handler and calls it once per image, in
  document order. For \<open>N\<close> images the handler holds exactly \<open>N\<close> records; the record at
  position \<open>i\<close> (counting from 0) carries the ordinal \<open>i + 1\<close>: its name is
  \<open>{documentName}-image-{i+1}.{extension}\<close>, its placeholder is
  \<open>![Image {i+1}](./images/{name})\<close>, and that placeholder is what the \<open>i\<close>-th call
  returned. The counter ends at \<open>N + 1\<close>, so the ordinals are \<open>1..N\<close>, each used once.
\<close>

theorem image_records_ordinals:
  assumes "capture_all join outputDir documentName els createImageHandler = (srcs, st)"
  shows "length (images st) = length els \<and> length srcs = length els
       \<and> imageCounter st = length els + 1
       \<and> (\<forall>i < length els.
             name (images st ! i)
               = documentName @ ''-image-'' @ show_nat (i + 1) @ ''.''
                   @ extension_of (contentType (els ! i))
           \<and> placeholder (images st ! i)
               = ''![Image '' @ show_nat (i + 1) @ ''](./images/'' @ name (images st ! i) @ '')''
           \<and> srcs ! i = placeholder (images st ! i))"
proof -
  let ?exp = "expected_images join outputDir documentName 1 els"
  have st: "st = \<lparr>imageCounter = 1 + length els, images = ?exp\<rparr>"
    using capture_all_state [of join outputDir documentName els createImageHandler] assms
    by (simp add: createImageHandler_def)
  have srcs: "srcs = map placeholder ?exp"
    using capture_all_srcs [of join outputDir documentName els createImageHandler] assms
    by (simp add: createImageHandler_def)
  have each: "name (?exp ! i)
                = documentName @ ''-image-'' @ show_nat (i + 1) @ ''.''
                    @ extension_of (contentType (els ! i))
            \<and> placeholder (?exp ! i)
                = ''![Image '' @ show_nat (i + 1) @ ''](./images/'' @ name (?exp ! i) @ '')''"
    if "i < length els" for i
    using that
    by (simp add: nth_expected_images image_at_def imageName_of_def placeholder_of_def Let_def)
  show ?thesis
    using each by (simp add: st srcs length_expected_images)
qed

theorem image_records_ordinals_witness:
  "\<exists>srcs st.
     capture_all concat ''out/'' ''doc''
       [\<lparr>contentType = ''image/png'', base64 = ''AA''\<rparr>,
        \<lparr>contentType = ''image'', base64 = ''BB''\<rparr>] createImageHandler = (srcs, st)
     \<and> length (images st) = 2
     \<and> name (images st ! 1) = ''doc-image-2.png''
     \<and> srcs ! 1 = ''![Image 2](./images/doc-image-2.png)''"
proof -
  let ?els = "[\<lparr>contentType = ''image/png'', base64 = ''AA''\<rparr>,
               \<lparr>contentType = ''image'', base64 = ''BB''\<rparr>]"
  obtain srcs st where run: "capture_all concat ''out/'' ''doc'' ?els createImageHandler = (srcs, st)"
    by (cases "capture_all concat ''out/'' ''doc'' ?els createImageHandler") blast
  have one: "(1::nat) < length ?els" by simp
  from image_records_ordinals [OF run] one
  have "length (images st) = 2
      \<and> name (images st ! 1) = ''doc-image-2.png''
      \<and> srcs ! 1 = ''![Image 2](./images/doc-image-2.png)''"
    by (simp add: show_nat.simps digit_char_def extension_of_def split_def)
  with run show ?thesis by blast
qed

section \<open>Frontmatter\<close>




















lemma starts_with_Nil: "starts_with [] s = True"
  by (simp add: starts_with_def)

lemma starts_with_Cons_Nil: "starts_with (a # p) [] = False"
  by (simp add: starts_with_def)

lemma starts_with_Cons_Cons: "starts_with (a # p) (c # s) = (a = c \<and> starts_with p s)"
  by (auto simp: starts_with_def)

lemmas starts_with_simps = starts_with_Nil starts_with_Cons_Nil starts_with_Cons_Cons

lemma starts_with_prefix: "starts_with (p @ q) s \<Longrightarrow> starts_with p s"
proof (induction p arbitrary: s)
  case Nil
  then show ?case by (simp add: starts_with_simps)
next
  case (Cons a p)
  then show ?case by (cases s) (auto simp: starts_with_simps)
qed

lemma lazy_until_close_finds:
  assumes "\<nexists>u v. y = u @ [LF] @ ''---'' @ v"
  shows "lazy_until_close acc (y @ frontmatter_close @ body) = Some (rev acc @ y, body)"
  using assms
proof (induction y arbitrary: acc)
  case Nil
  then show ?case by (simp add: frontmatter_close_def starts_with_simps)
next
  case (Cons c y)
  have no: "\<not> starts_with frontmatter_close (c # y @ frontmatter_close @ body)"
  proof
    assume st: "starts_with frontmatter_close (c # y @ frontmatter_close @ body)"
    then have "c = LF \<and> starts_with (''---'' @ [LF, LF]) (y @ frontmatter_close @ body)"
      by (auto simp: frontmatter_close_def starts_with_simps)
    then have c: "c = LF"
      and five: "starts_with (''---'' @ [LF, LF]) (y @ frontmatter_close @ body)"
      by blast+
    from five have three: "starts_with ''---'' (y @ frontmatter_close @ body)"
      by (rule starts_with_prefix)
    have "\<exists>v. y = ''---'' @ v"
    proof (cases y)
      case Nil
      with three show ?thesis by (simp add: frontmatter_close_def starts_with_simps)
    next
      case (Cons a y1)
      note y = this
      show ?thesis
      proof (cases y1)
        case Nil
        with three y show ?thesis by (simp add: frontmatter_close_def starts_with_simps)
      next
        case (Cons b y2)
        note y1 = this
        show ?thesis
        proof (cases y2)
          case Nil
          with three y y1 show ?thesis by (simp add: frontmatter_close_def starts_with_simps)
        next
          case (Cons d y3)
          with three y y1 show ?thesis by (auto simp: starts_with_simps)
        qed
      qed
    qed
    then obtain v where "y = ''---'' @ v" by blast
    with c have "c # y = [] @ [LF] @ ''---'' @ v" by simp
    with Cons.prems show False by blast
  qed
  have rest: "\<nexists>u v. y = u @ [LF] @ ''---'' @ v"
  proof
    assume "\<exists>u v. y = u @ [LF] @ ''---'' @ v"
    then obtain u v where "y = u @ [LF] @ ''---'' @ v" by blast
    then have "c # y = (c # u) @ [LF] @ ''---'' @ v" by simp
    with Cons.prems show False by blast
  qed
  from Cons.IH [OF rest, of "c # acc"] no show ?case by simp
qed

text \<open>
  Claim C7. Compose the fields \<open>{title: "T", chapter: 1, section: "1.1", objectives:
  ["a", "b"]}\<close> over any body and parse the result: the parser hands the serialised
  header, as the serialiser wrote it, back to the loader, and returns the loaded fields
  with the original body as content. The library is a parameter; what is asked of it is
  that its text for the object ends in a line feed, holds no line starting with \<open>---\<close>
  after its first, and loads back to the object.
\<close>

theorem frontmatter_round_trip:
  assumes "dump round_trip_fields = y @ [LF]"
    and "\<nexists>u v. y = u @ [LF] @ ''---'' @ v"
    and "load y = Some round_trip_fields"
  shows "\<exists>text. addFrontmatterToMarkdown dump body round_trip_options = Inr text
             \<and> parseFrontmatter load text = (Some round_trip_fields, body)"
proof -
  have gen: "generateFrontmatter round_trip_options = Inr round_trip_fields"
    by (simp add: generateFrontmatter_def round_trip_options_def no_options_def
          round_trip_fields_def spread_def)
  let ?text = "''---'' @ [LF] @ (y @ [LF]) @ ''---'' @ [LF, LF] @ body"
  have add: "addFrontmatterToMarkdown dump body round_trip_options = Inr ?text"
    by (simp add: addFrontmatterToMarkdown_def gen frontmatterToYaml_def assms(1))
  have shape: "drop 4 ?text = y @ frontmatter_close @ body"
    by (simp add: frontmatter_close_def)
  have "frontmatterRegex ?text = Some (y, body)"
    using lazy_until_close_finds [OF assms(2), of "[]" body]
    by (simp only: frontmatterRegex_def shape) (simp add: starts_with_simps)
  then have "parseFrontmatter load ?text = (Some round_trip_fields, body)"
    by (simp add: parseFrontmatter_def assms(3))
  with add show ?thesis by blast
qed

lemma round_trip_yaml_clean: "\<nexists>u v. round_trip_yaml = u @ [LF] @ ''---'' @ v"
proof
  assume "\<exists>u v. round_trip_yaml = u @ [LF] @ ''---'' @ v"
  then obtain u v where e: "round_trip_yaml = u @ [LF] @ ''---'' @ v" by blast
  have "\<forall>k < length round_trip_yaml. \<not> starts_with ([LF] @ ''---'') (drop k round_trip_yaml)"
    by (simp add: round_trip_yaml_def starts_with_def All_less_Suc)
  moreover have "length u < length round_trip_yaml"
    using arg_cong [OF e, of length] by simp
  moreover have "starts_with ([LF] @ ''---'') (drop (length u) round_trip_yaml)"
    by (simp add: e starts_with_def)
  ultimately show False by blast
qed


theorem frontmatter_round_trip_witness:
  "parseFrontmatter (\<lambda>s. if s = round_trip_yaml then Some round_trip_fields else None)
     (''---'' @ [LF] @ round_trip_yaml @ [LF] @ ''---'' @ [LF, LF] @ ''Body text'')
     = (Some round_trip_fields, ''Body text'')"
proof -
  let ?dump = "\<lambda>fm :: object. round_trip_yaml @ [LF]"
  let ?load = "\<lambda>s. if s = round_trip_yaml then Some round_trip_fields else None"
  have a: "?dump round_trip_fields = round_trip_yaml @ [LF]" by simp
  have c: "?load round_trip_yaml = Some round_trip_fields" by simp
  from frontmatter_round_trip [of ?dump round_trip_yaml ?load "''Body text''",
      OF a round_trip_yaml_clean c]
  show ?thesis
    by (simp add: addFrontmatterToMarkdown_def generateFrontmatter_def round_trip_options_def
          no_options_def spread_def frontmatterToYaml_def)
qed

section \<open>Post-processing\<close>





lemma replace_scan_id:
  assumes "\<And>prev a t. s = a @ t \<Longrightarrow> t \<noteq> [] \<Longrightarrow> m prev t = None"
  shows "replace_scan m p 0 s = s"
  using assms
proof (induction s arbitrary: p)
  case Nil
  then show ?case by simp
next
  case (Cons c cs)
  have here: "m p (c # cs) = None" using Cons.prems [of "[]" "c # cs" p] by simp
  have "replace_scan m (Some c) 0 cs = cs"
  proof (rule Cons.IH)
    fix prev a t
    assume "cs = a @ t" "t \<noteq> []"
    then show "m prev t = None" using Cons.prems [of "c # a" t prev] by simp
  qed
  with here show ?case by simp
qed











lemma set_trim: "set (trim s) \<subseteq> set s"
proof -
  have "set (dropWhile is_space (rev (dropWhile is_space s))) \<subseteq> set (rev (dropWhile is_space s))"
    by (rule set_dropWhileD [THEN subsetI])
  also have "\<dots> \<subseteq> set s" using set_dropWhileD [of _ is_space s] by auto
  finally show ?thesis by (simp add: trim_def)
qed

lemma dropWhile_idem: "dropWhile P (dropWhile P xs) = dropWhile P xs"
  by (induction xs) auto

lemma dropWhile_front_kept:
  assumes "dropWhile P u = u"
  shows "dropWhile P (rev (dropWhile P (rev u))) = rev (dropWhile P (rev u))"
proof (cases "rev (dropWhile P (rev u))")
  case Nil
  show ?thesis unfolding Nil by simp
next
  case (Cons a v)
  have "rev u = takeWhile P (rev u) @ dropWhile P (rev u)" by simp
  then have "u = rev (dropWhile P (rev u)) @ rev (takeWhile P (rev u))"
    by (metis rev_append rev_rev_ident)
  with Cons have u: "u = a # v @ rev (takeWhile P (rev u))" by simp
  have "\<not> P a"
  proof
    assume "P a"
    then have "dropWhile P u \<noteq> u"
      by (metis u dropWhile.simps(2) length_Cons length_dropWhile_le not_less_eq_eq)
    with assms show False by simp
  qed
  then show ?thesis unfolding Cons by simp
qed

lemma trim_idem: "trim (trim s) = trim s"
proof -
  let ?u = "dropWhile is_space s"
  have u: "dropWhile is_space ?u = ?u" by (rule dropWhile_idem)
  show ?thesis
    by (simp add: trim_def dropWhile_front_kept [OF u] dropWhile_idem)
qed




















lemma takeWhile_in_set: "takeWhile P xs \<noteq> [] \<Longrightarrow> \<exists>x\<in>set xs. P x"
  by (cases xs) (auto split: if_splits)

lemma formula_needs_digit: "match_formula prev t = Some x \<Longrightarrow> \<exists>d\<in>set t. is_digit d"
proof -
  assume a: "match_formula prev t = Some x"
  then obtain symb r where es: "element_symbol t = Some (symb, r)"
    by (cases "element_symbol t") (auto simp: match_formula_def split: if_splits)
  with a have "takeWhile is_digit r \<noteq> []"
    by (auto simp: match_formula_def Let_def split: if_splits)
  then obtain d where "d \<in> set r" "is_digit d" using takeWhile_in_set by blast
  moreover from es have "set r \<subseteq> set t"
    by (cases t) (auto simp: element_symbol_def split: if_splits list.splits)
  ultimately show ?thesis by blast
qed

lemma subscript_needs_digit: "match_subscript prev t = Some x \<Longrightarrow> \<exists>d\<in>set t. is_digit d"
proof -
  assume a: "match_subscript prev t = Some x"
  then obtain symb u r where es: "element_symbol t = Some (symb, u # r)"
    by (cases "element_symbol t") (auto simp: match_subscript_def split: list.splits)
  with a have "takeWhile is_digit r \<noteq> []"
    by (auto simp: match_subscript_def Let_def split: if_splits)
  then obtain d where "d \<in> set r" "is_digit d" using takeWhile_in_set by blast
  moreover from es have "set (u # r) \<subseteq> set t"
    by (cases t) (auto simp: element_symbol_def split: if_splits list.splits)
  ultimately show ?thesis by auto
qed



lemma lf_run_Nil: "lf_run [] = 0"
  by (simp add: lf_run_def)

lemma lf_run_Cons: "lf_run (c # cs) = (if c = LF then Suc (lf_run cs) else 0)"
  by (simp add: lf_run_def)

lemma blank_lines_iff: "match_blank_lines prev s = (if 3 \<le> lf_run s then Some ([LF, LF], lf_run s) else None)"
  by (simp add: match_blank_lines_def lf_run_def Let_def)

lemma no_triple_iff: "no_triple s = (\<forall>a t. s = a @ t \<longrightarrow> lf_run t < 3)"
proof (induction s)
  case Nil
  then show ?case by (simp add: lf_run_Nil)
next
  case (Cons c cs)
  show ?case
  proof
    assume l: "no_triple (c # cs)"
    show "\<forall>a t. c # cs = a @ t \<longrightarrow> lf_run t < 3"
    proof (intro allI impI)
      fix a t assume e: "c # cs = a @ t"
      show "lf_run t < 3"
      proof (cases a)
        case Nil
        with e have "t = c # cs" by simp
        with l show ?thesis by simp
      next
        case (Cons x a')
        with e have "cs = a' @ t" by simp
        with l Cons.IH show ?thesis by auto
      qed
    qed
  next
    assume r: "\<forall>a t. c # cs = a @ t \<longrightarrow> lf_run t < 3"
    then have "lf_run (c # cs) < 3" by (metis append_Nil)
    moreover have "\<forall>a t. cs = a @ t \<longrightarrow> lf_run t < 3"
      using r by (metis append_Cons)
    ultimately show "no_triple (c # cs)" using Cons.IH by simp
  qed
qed

lemma no_triple_Nil: "no_triple []"
  by simp

lemma no_triple_Cons: "no_triple (c # cs) = (lf_run (c # cs) < 3 \<and> no_triple cs)"
  by simp

lemma replace_scan_drop:
  "replace_scan match_blank_lines p k s = replace_scan match_blank_lines q 0 (drop k s)"
proof (induction k arbitrary: s p)
  case 0
  have "replace_scan match_blank_lines p 0 s = replace_scan match_blank_lines q 0 s" for s p q
    by (induction s arbitrary: p q) (auto simp: blank_lines_iff split: option.splits)
  then show ?case by simp
next
  case (Suc k)
  then show ?case by (cases s) simp_all
qed

lemma drop_lf_run: "lf_run (drop (lf_run s) s) = 0"
  by (induction s) (simp_all add: lf_run_Cons lf_run_Nil)

lemma collapse_invariant:
  "no_triple (replace_scan match_blank_lines p 0 s)
   \<and> lf_run (replace_scan match_blank_lines p 0 s) \<le> lf_run s"
proof (induction "length s" arbitrary: s p rule: less_induct)
  case less
  show ?case
  proof (cases s)
    case Nil
    then show ?thesis by (simp add: no_triple_Nil lf_run_Nil)
  next
    case (Cons c cs)
    show ?thesis
      unfolding Cons
    proof (cases "3 \<le> lf_run (c # cs)")
      case False
      have ih: "no_triple (replace_scan match_blank_lines (Some c) 0 cs)
              \<and> lf_run (replace_scan match_blank_lines (Some c) 0 cs) \<le> lf_run cs"
        by (rule less) (simp add: Cons)
      have out: "replace_scan match_blank_lines p 0 (c # cs)
                   = c # replace_scan match_blank_lines (Some c) 0 cs"
        using False by (simp add: blank_lines_iff)
      from ih False
      show "no_triple (replace_scan match_blank_lines p 0 (c # cs))
            \<and> lf_run (replace_scan match_blank_lines p 0 (c # cs)) \<le> lf_run (c # cs)"
        unfolding out by (auto simp: no_triple_Cons lf_run_Cons)
    next
      case True
      let ?rest = "drop (lf_run (c # cs)) (c # cs)"
      have ih: "no_triple (replace_scan match_blank_lines None 0 ?rest)
              \<and> lf_run (replace_scan match_blank_lines None 0 ?rest) \<le> lf_run ?rest"
        by (rule less) (use True in \<open>simp add: Cons\<close>)
      have "replace_scan match_blank_lines p 0 (c # cs)
              = [LF, LF] @ replace_scan match_blank_lines (Some c) (lf_run (c # cs) - 1) cs"
        using True by (simp add: blank_lines_iff)
      also have "replace_scan match_blank_lines (Some c) (lf_run (c # cs) - 1) cs
              = replace_scan match_blank_lines None 0 (drop (lf_run (c # cs) - 1) cs)"
        by (rule replace_scan_drop)
      also have "drop (lf_run (c # cs) - 1) cs = ?rest"
        using True by (cases "lf_run (c # cs)") simp_all
      finally have out: "replace_scan match_blank_lines p 0 (c # cs)
              = LF # LF # replace_scan match_blank_lines None 0 ?rest" by simp
      from ih drop_lf_run [of "c # cs"] True
      show "no_triple (replace_scan match_blank_lines p 0 (c # cs))
            \<and> lf_run (replace_scan match_blank_lines p 0 (c # cs)) \<le> lf_run (c # cs)"
        unfolding out by (simp add: no_triple_Cons lf_run_Cons)
    qed
  qed
qed

lemma no_triple_fixed: "no_triple s \<Longrightarrow> replace_all match_blank_lines s = s"
  unfolding replace_all_def
proof (rule replace_scan_id)
  fix prev a t
  assume "no_triple s" "s = a @ t"
  then have "lf_run t < 3" unfolding no_triple_iff by blast
  then show "match_blank_lines prev t = None" by (simp add: blank_lines_iff)
qed

lemma lf_run_append: "lf_run t \<le> lf_run (t @ b)"
  by (induction t) (simp_all add: lf_run_Cons lf_run_Nil)

lemma no_triple_part: "no_triple (a @ y @ b) \<Longrightarrow> no_triple y"
  unfolding no_triple_iff
proof (intro allI impI)
  fix a' t
  assume all: "\<forall>a' t. a @ y @ b = a' @ t \<longrightarrow> lf_run t < 3" and "y = a' @ t"
  then have "a @ y @ b = (a @ a') @ (t @ b)" by simp
  with all have "lf_run (t @ b) < 3" by blast
  with lf_run_append [of t b] show "lf_run t < 3" by simp
qed

lemma trim_part: "\<exists>a b. s = a @ trim s @ b"
proof -
  let ?u = "dropWhile is_space s"
  have 1: "s = takeWhile is_space s @ ?u" by simp
  have "rev ?u = takeWhile is_space (rev ?u) @ dropWhile is_space (rev ?u)" by simp
  then have 2: "?u = trim s @ rev (takeWhile is_space (rev ?u))"
    unfolding trim_def by (metis rev_append rev_rev_ident)
  from 1 2 have "s = takeWhile is_space s @ trim s @ rev (takeWhile is_space (rev ?u))"
    by metis
  then show ?thesis by blast
qed

lemma no_triple_trim: "no_triple s \<Longrightarrow> no_triple (trim s)"
  using trim_part [of s] no_triple_part by metis

lemma set_replace_scan:
  assumes "\<And>prev t rep n. m prev t = Some (rep, n) \<Longrightarrow> set rep \<subseteq> set t"
  shows "set (replace_scan m p k s) \<subseteq> set s"
proof (induction s arbitrary: p k)
  case Nil
  then show ?case by simp
next
  case (Cons c cs)
  show ?case
  proof (cases k)
    case (Suc k')
    with Cons [of "Some c" k'] show ?thesis by auto
  next
    case 0
    show ?thesis
    proof (cases "m p (c # cs)")
      case None
      with 0 Cons [of "Some c" 0] show ?thesis by auto
    next
      case (Some a)
      obtain rep n where a: "a = (rep, n)" by (cases a)
      from assms [of p "c # cs" rep n] Some a have "set rep \<subseteq> set (c # cs)" by simp
      with 0 Some a Cons [of "Some c" "n - 1"] show ?thesis by auto
    qed
  qed
qed

lemma set_collapse: "set (replace_all match_blank_lines s) \<subseteq> set s"
  unfolding replace_all_def
proof (rule set_replace_scan)
  fix prev t rep n
  assume "match_blank_lines prev t = Some (rep, n)"
  then have "rep = [LF, LF]" and "3 \<le> lf_run t"
    by (auto simp: blank_lines_iff split: if_splits)
  then show "set rep \<subseteq> set t" by (cases t) (auto simp: lf_run_Cons lf_run_Nil split: if_splits)
qed

lemma before_header_needs_hash: "match_before_header prev t = Some x \<Longrightarrow> CHR ''#'' \<in> set t"
proof -
  assume a: "match_before_header prev t = Some x"
  then obtain c r where t: "t = c # r" by (cases t) (auto simp: match_before_header_def)
  with a obtain h rest where hh: "heading_hashes r = Some (h, rest)"
    by (cases "heading_hashes r") (auto simp: match_before_header_def split: if_splits)
  then have "h = takeWhile (\<lambda>c. c = CHR ''#'') r" "1 \<le> length h"
    by (auto simp: heading_hashes_def Let_def split: if_splits)
  then have "CHR ''#'' \<in> set r"
    by (cases r) (auto split: if_splits)
  with t show ?thesis by simp
qed

lemma after_header_needs_hash: "match_after_header prev t = Some x \<Longrightarrow> CHR ''#'' \<in> set t"
proof -
  assume a: "match_after_header prev t = Some x"
  then obtain h rest where hh: "heading_hashes t = Some (h, rest)"
    by (cases "heading_hashes t") (auto simp: match_after_header_def)
  then have "h = takeWhile (\<lambda>c. c = CHR ''#'') t" "1 \<le> length h"
    by (auto simp: heading_hashes_def Let_def split: if_splits)
  then show ?thesis
    by (cases t) (auto split: if_splits)
qed

lemma table_row_needs_bar: "match_table_row prev t = Some x \<Longrightarrow> CHR ''|'' \<in> set t"
  by (auto simp: match_table_row_def split: list.splits if_splits)

lemma replace_all_without:
  assumes "\<And>prev t x. m prev t = Some x \<Longrightarrow> \<exists>c\<in>set t. P c" and "\<forall>c\<in>set s. \<not> P c"
  shows "replace_all m s = s"
  unfolding replace_all_def
proof (rule replace_scan_id)
  fix prev a t
  assume "s = a @ t" "t \<noteq> []"
  with assms(2) have "\<forall>c\<in>set t. \<not> P c" by simp
  with assms(1) [of prev t] show "m prev t = None" by (cases "m prev t") auto
qed

lemma postprocess_prose:
  assumes "(\<forall>c\<in>set x. c \<noteq> CHR ''#'' \<and> c \<noteq> CHR ''|'' \<and> \<not> is_digit c)"
  shows "postprocessMarkdown x = trim (replace_all match_blank_lines x)"
proof -
  let ?y = "replace_all match_blank_lines x"
  have y: "\<forall>c\<in>set ?y. c \<noteq> CHR ''#'' \<and> c \<noteq> CHR ''|'' \<and> \<not> is_digit c"
    using assms set_collapse [of x] by auto
  have 2: "replace_all match_before_header ?y = ?y"
    by (rule replace_all_without [where P = "\<lambda>c. c = CHR ''#''"])
       (use y before_header_needs_hash in auto)
  have 3: "replace_all match_after_header ?y = ?y"
    by (rule replace_all_without [where P = "\<lambda>c. c = CHR ''#''"])
       (use y after_header_needs_hash in auto)
  have 4: "replace_all match_table_row ?y = ?y"
    by (rule replace_all_without [where P = "\<lambda>c. c = CHR ''|''"])
       (use y table_row_needs_bar in auto)
  have 5: "replace_all match_subscript ?y = ?y"
    by (rule replace_all_without [where P = is_digit])
       (use y subscript_needs_digit in auto)
  have 6: "replace_all match_formula ?y = ?y"
    by (rule replace_all_without [where P = is_digit])
       (use y formula_needs_digit in auto)
  show ?thesis
    by (simp add: postprocessMarkdown_def Let_def 2 3 4 5 6)
qed

lemmas char_class_defs = is_upper_def is_lower_def is_digit_def is_word_def is_space_def
  is_line_terminator_def

lemmas postprocess_defs = postprocessMarkdown_def replace_all_def match_blank_lines_def
  match_before_header_def match_after_header_def match_table_row_def match_subscript_def
  match_formula_def element_symbol_def heading_hashes_def trim_def

text \<open>
  Claim C2, as amended. On a text without \<open>#\<close>, without \<open>|\<close> and without digits only the
  first rule and the final trim can apply, and a second pass changes nothing. (On other
  texts a second pass can change the text again: \<open>H2O\<close> is wrapped to \<open>$H2O$\<close> by the
  first pass and to \<open>$$H2O$$\<close> by the second.)
\<close>

theorem postprocess_idempotent_on_prose:
  assumes "\<forall>c\<in>set x. c \<noteq> CHR ''#'' \<and> c \<noteq> CHR ''|'' \<and> \<not> is_digit c"
  shows "postprocessMarkdown (postprocessMarkdown x) = postprocessMarkdown x"
proof -
  let ?y = "trim (replace_all match_blank_lines x)"
  have once: "postprocessMarkdown x = ?y" by (rule postprocess_prose [OF assms])
  have "set ?y \<subseteq> set x" using set_trim set_collapse by (metis subset_trans)
  with assms have py: "\<forall>c\<in>set ?y. c \<noteq> CHR ''#'' \<and> c \<noteq> CHR ''|'' \<and> \<not> is_digit c"
    by auto
  have "no_triple (replace_all match_blank_lines x)"
    unfolding replace_all_def using collapse_invariant by blast
  then have "no_triple ?y" by (rule no_triple_trim)
  then have fixed: "replace_all match_blank_lines ?y = ?y" by (rule no_triple_fixed)
  have "postprocessMarkdown ?y = trim (replace_all match_blank_lines ?y)"
    by (rule postprocess_prose [OF py])
  also have "\<dots> = ?y" by (simp only: fixed trim_idem)
  finally show ?thesis by (simp only: once)
qed

theorem postprocess_idempotent_on_prose_witness:
  "postprocessMarkdown (postprocessMarkdown (''Water'' @ [LF, LF, LF, LF] @ ''is wet '' @ [LF]))
     = ''Water'' @ [LF, LF] @ ''is wet''"
proof -
  have "\<forall>c\<in>set (''Water'' @ [LF, LF, LF, LF] @ ''is wet '' @ [LF]).
          c \<noteq> CHR ''#'' \<and> c \<noteq> CHR ''|'' \<and> \<not> is_digit c"
    by (simp add: is_digit_def)
  from postprocess_idempotent_on_prose [OF this]
  show ?thesis by (simp add: postprocess_defs char_class_defs)
qed

text \<open>Claim C2 as stated fails: one pass more wraps the formula again.\<close>

theorem postprocess_not_idempotent:
  "postprocessMarkdown (postprocessMarkdown ''H2O'') \<noteq> postprocessMarkdown ''H2O''"
  by (simp add: postprocess_defs char_class_defs)

lemma postprocess_H2O: "postprocessMarkdown ''H2O'' = ''$H2O$''"
  by (simp add: postprocess_defs char_class_defs)

lemma postprocess_H2O_twice: "postprocessMarkdown ''$H2O$'' = ''$$H2O$$''"
  by (simp add: postprocess_defs char_class_defs)

text \<open>
  Claim C3 asks for exactly one blank line before and after a heading that stood among
  five or more blank lines. On a heading with six line feeds on each side the first rule
  leaves one blank line on each side; the second rule then puts a line feed before the
  heading marker although a blank line is there, and the heading ends up preceded by two
  blank lines and followed by one.
\<close>

theorem heading_two_blank_lines:
  "postprocessMarkdown (''a'' @ replicate 6 LF @ ''# H'' @ replicate 6 LF @ ''b'')
     = ''a'' @ [LF, LF, LF] @ ''# H'' @ [LF, LF] @ ''b''"
  by (simp add: postprocess_defs char_class_defs numeral_eq_Suc)

lemma heading_blank_line_added_again:
  "postprocessMarkdown (''a'' @ [LF, LF] @ ''# H'') = ''a'' @ [LF, LF, LF] @ ''# H''"
  by (simp add: postprocess_defs char_class_defs)



section \<open>Converting one document\<close>




lemmas sample_defs = sample_world_def failing_disk_def sample_document_def sample_path_def
  sample_options_def after_last_slash_def




section \<open>Titles\<close>

lemma match_h1_needs_hash: "c \<noteq> CHR ''#'' \<Longrightarrow> match_h1 (c # cs) = None"
  by (simp add: match_h1_def)

lemma match_heading_needs_hash: "c \<noteq> CHR ''#'' \<Longrightarrow> match_heading (c # cs) = None"
  by (simp add: match_heading_def heading_hashes_def)

lemma first_line_match_no_hash:
  assumes "\<And>c cs. c \<noteq> CHR ''#'' \<Longrightarrow> m (c # cs) = None" and "CHR ''#'' \<notin> set s"
  shows "first_line_match m prev s = None"
  using assms(2)
proof (induction s arbitrary: prev)
  case Nil
  then show ?case by simp
next
  case (Cons c cs)
  from Cons.prems have "c \<noteq> CHR ''#''" by auto
  then have "m (c # cs) = None" by (rule assms(1))
  with Cons show ?case by simp
qed

lemma extractTitle_no_heading:
  "CHR ''#'' \<notin> set md \<Longrightarrow> extractTitle md = ''Untitled Document''"
proof -
  assume no: "CHR ''#'' \<notin> set md"
  have "first_line_match match_h1 None md = None"
    by (rule first_line_match_no_hash [where m = match_h1, OF match_h1_needs_hash no])
  moreover have "first_line_match match_heading None md = None"
    by (rule first_line_match_no_hash [where m = match_heading, OF match_heading_needs_hash no])
  ultimately show ?thesis by (simp add: extractTitle_def)
qed

lemma filename_never_consulted:
  assumes "CHR ''#'' \<notin> set md" and "\<forall>t. title_p = Value t \<longrightarrow> t = []"
  shows "resolve_title P title_p md inputPath = ''Untitled Document''"
  using assms by (cases title_p) (simp_all add: resolve_title_def extractTitle_no_heading)

text \<open>
  Claim C4 asks for the title derived from the file name when there is neither a caller
  title nor a heading. For such a document the resolved title is the constant
  \<open>Untitled Document\<close> that \<open>extractTitle\<close> returns, and it is what the frontmatter holds;
  the title derived from the file name, \<open>My Doc\<close> here, is not used.
\<close>

theorem title_of_document_without_heading:
  "resolve_title sample_path Absent ''Hello world'' ''docs/my-doc.docx'' = ''Untitled Document''
   \<and> extractTitleFromFilename sample_path ''docs/my-doc.docx'' = ''My Doc''
   \<and> generateFrontmatter
        (with_title (resolve_title sample_path Absent ''Hello world'' ''docs/my-doc.docx'') no_options)
       = Inr [(''title'', YStr ''Untitled Document'')]"
proof -
  have a: "resolve_title sample_path Absent ''Hello world'' ''docs/my-doc.docx'' = ''Untitled Document''"
    by (rule filename_never_consulted) simp_all
  have b: "extractTitleFromFilename sample_path ''docs/my-doc.docx'' = ''My Doc''"
    by (simp add: extractTitleFromFilename_def sample_defs replace_all_def match_word_start_def
          to_upper_def is_word_def is_upper_def is_lower_def is_digit_def ends_with_def
          starts_with_def Let_def)
  have c: "generateFrontmatter (with_title ''Untitled Document'' no_options)
             = Inr [(''title'', YStr ''Untitled Document'')]"
    by (simp add: generateFrontmatter_def with_title_def no_options_def spread_def)
  from a b c show ?thesis by simp
qed

section \<open>Batch conversion\<close>













end
